theory Spec2Isabelle
  imports Complex_Main
begin

section \<open>Line tokenizer\<close>

text \<open>
  A line of the input file is a \<^typ>\<open>string\<close>: the list of its characters, each a code
  point below 256. Python floats are idealised as \<^typ>\<open>real\<close> numbers: a decimal
  literal denotes its exact value and arithmetic does not round.
\<close>

definition isspace :: "char \<Rightarrow> bool" where
  \<comment> \<open>the characters \<open>str.strip()\<close> removes\<close>
  "isspace c = (c \<in> set [CHR '' '', CHR 0x09, CHR 0x0A, CHR 0x0B, CHR 0x0C, CHR 0x0D,
                           CHR 0x1C, CHR 0x1D, CHR 0x1E, CHR 0x1F, CHR 0x85, CHR 0xA0])"

definition strip :: "string \<Rightarrow> string" where
  "strip s = rev (dropWhile isspace (rev (dropWhile isspace s)))"

definition isdigit :: "char \<Rightarrow> bool" where
  \<comment> \<open>the class \<open>[0-9]\<close>\<close>
  "isdigit c = (c \<in> set ''0123456789'')"

definition isword :: "char \<Rightarrow> bool" where
  \<comment> \<open>the class \<open>\w\<close> of a str pattern: alphanumeric or underscore\<close>
  "isword c = (let n = (of_char c :: nat) in
      (48 \<le> n \<and> n \<le> 57) \<or> (65 \<le> n \<and> n \<le> 90) \<or> (97 \<le> n \<and> n \<le> 122) \<or> n = 95 \<or>
      n \<in> set [0xAA, 0xB2, 0xB3, 0xB5, 0xB9, 0xBA, 0xBC, 0xBD, 0xBE] \<or>
      (0xC0 \<le> n \<and> n \<le> 0xD6) \<or> (0xD8 \<le> n \<and> n \<le> 0xF6) \<or> 0xF8 \<le> n)"

definition startswith :: "string \<Rightarrow> string \<Rightarrow> bool" where
  "startswith s p = (take (length p) s = p)"

fun paren_close :: "string \<Rightarrow> string option" where
  \<comment> \<open>after an opening parenthesis, \<open>.*?\)\<close>: the text behind the first closing
      parenthesis, which no newline may precede\<close>
  "paren_close [] = None"
| "paren_close (c # cs) =
     (if c = CHR '')'' then Some cs else if c = CHR 0x0A then None else paren_close cs)"

definition semi_tail :: "string \<Rightarrow> string option" where
  \<comment> \<open>after a semicolon, \<open>.*$\<close>: the rest of the line, which must end the string or
      stand before its final newline\<close>
  "semi_tail cs =
     (let rest = dropWhile (\<lambda>c. c \<noteq> CHR 0x0A) cs
      in if rest = [] \<or> rest = [CHR 0x0A] then Some rest else None)"

definition comment_match :: "char \<Rightarrow> string \<Rightarrow> string option" where
  \<comment> \<open>\<open>COMMENT_RE\<close> at one position: the text behind the match, if there is one\<close>
  "comment_match c cs =
     (if c = CHR ''('' then paren_close cs
      else if c = CHR '';'' then semi_tail cs
      else None)"

lemma paren_close_length: "paren_close cs = Some rest \<Longrightarrow> length rest \<le> length cs"
proof (induction cs)
  case Nil
  then show ?case by simp
next
  case (Cons c cs)
  show ?case
  proof (cases "c = CHR '')''")
    case True
    with Cons.prems show ?thesis by simp
  next
    case False
    with Cons.prems have "paren_close cs = Some rest"
      by (simp split: if_splits)
    from Cons.IH [OF this] show ?thesis by simp
  qed
qed

lemma semi_tail_length: "semi_tail cs = Some rest \<Longrightarrow> length rest \<le> length cs"
proof -
  assume a: "semi_tail cs = Some rest"
  have "rest = dropWhile (\<lambda>c. c \<noteq> CHR 0x0A) cs"
  proof (cases "dropWhile (\<lambda>c. c \<noteq> CHR 0x0A) cs = [] \<or>
                dropWhile (\<lambda>c. c \<noteq> CHR 0x0A) cs = [CHR 0x0A]")
    case True
    with a show ?thesis
      by (simp only: semi_tail_def Let_def if_True option.inject)
  next
    case False
    with a show ?thesis
      by (simp only: semi_tail_def Let_def if_False option.distinct)
  qed
  then show ?thesis
    by (simp only: length_dropWhile_le)
qed

lemma comment_match_length: "comment_match c cs = Some rest \<Longrightarrow> length rest \<le> length cs"
proof -
  assume a: "comment_match c cs = Some rest"
  then have "paren_close cs = Some rest \<or> semi_tail cs = Some rest"
    by (simp only: comment_match_def split: if_splits) simp_all
  then show ?thesis
    using paren_close_length semi_tail_length by blast
qed

function comment_sub :: "string \<Rightarrow> string" where
  \<comment> \<open>\<open>COMMENT_RE.sub("", line)\<close>\<close>
  "comment_sub [] = []"
| "comment_sub (c # cs) =
     (case comment_match c cs of
        Some rest \<Rightarrow> comment_sub rest
      | None \<Rightarrow> c # comment_sub cs)"
  by pat_completeness auto
termination
proof (relation "measure length")
  show "wf (measure length)" by simp
next
  fix c :: char and cs rest :: string
  assume "comment_match c cs = Some rest"
  then have "length rest \<le> length cs" by (rule comment_match_length)
  then show "(rest, c # cs) \<in> measure length" by simp
next
  fix c :: char and cs :: string
  show "(cs, c # cs) \<in> measure length" by simp
qed

definition strip_comments :: "string \<Rightarrow> string" where
  "strip_comments line = strip (comment_sub line)"

definition move_cmd_search :: "string \<Rightarrow> bool" where
  \<comment> \<open>\<open>MOVE_CMD_RE.search(line)\<close>: one of the four commands at the start of the line,
      followed by a word boundary\<close>
  "move_cmd_search line =
     list_ex (\<lambda>p. startswith line p \<and>
                  (case drop (length p) line of [] \<Rightarrow> True | c # _ \<Rightarrow> \<not> isword c))
       [''G0'', ''G1'', ''G00'', ''G01'']"

definition digit_val :: "char \<Rightarrow> nat" where
  "digit_val c = of_char c - 48"

definition digits_val :: "string \<Rightarrow> nat" where
  "digits_val ds = foldl (\<lambda>a c. 10 * a + digit_val c) 0 ds"

definition unsigned_match :: "string \<Rightarrow> (real \<times> string) option" where
  \<comment> \<open>\<open>[0-9]*\.?[0-9]+\<close> at the head of the text: the float value of the match and the
      text behind it\<close>
  "unsigned_match s =
     (let d1 = takeWhile isdigit s;
          r1 = dropWhile isdigit s;
          whole = (if d1 \<noteq> [] then Some (real (digits_val d1), r1) else None)
      in case r1 of
           [] \<Rightarrow> whole
         | c # r2 \<Rightarrow>
             (let d2 = takeWhile isdigit r2
              in if c = CHR ''.'' \<and> d2 \<noteq> []
                 then Some (real (digits_val d1) + real (digits_val d2) / 10 ^ length d2,
                            dropWhile isdigit r2)
                 else whole))"

definition number_match :: "string \<Rightarrow> (real \<times> string) option" where
  \<comment> \<open>\<open>[-+]?[0-9]*\.?[0-9]+\<close> at the head of the text, read by \<open>float\<close>\<close>
  "number_match s =
     (case s of
        [] \<Rightarrow> None
      | c # r \<Rightarrow>
          if c = CHR ''-'' then map_option (\<lambda>(v, rest). (- v, rest)) (unsigned_match r)
          else if c = CHR ''+'' then unsigned_match r
          else unsigned_match s)"

definition upper :: "char \<Rightarrow> char" where
  "upper c = (case map_of (zip ''abcdefghijklmnopqrstuvwxyz'' ''ABCDEFGHIJKLMNOPQRSTUVWXYZ'') c of
                Some u \<Rightarrow> u
              | None \<Rightarrow> c)"

lemma unsigned_match_length:
  assumes "unsigned_match s = Some (v, rest)"
  shows "length rest \<le> length s"
proof (cases "dropWhile isdigit s")
  case Nil
  with assms show ?thesis
    by (simp add: unsigned_match_def Let_def split: if_splits)
next
  case (Cons c r2)
  have a: "length (dropWhile isdigit s) \<le> length s"
    by (rule length_dropWhile_le)
  have b: "length (dropWhile isdigit r2) \<le> length r2"
    by (rule length_dropWhile_le)
  from a Cons have c: "Suc (length r2) \<le> length s" by simp
  from assms Cons have "rest = dropWhile isdigit r2 \<or> rest = c # r2"
    by (simp add: unsigned_match_def Let_def split: if_splits)
  with b c show ?thesis by auto
qed

lemma number_match_length:
  assumes "number_match s = Some (v, rest)"
  shows "length rest \<le> length s"
proof (cases s)
  case Nil
  with assms show ?thesis by (simp add: number_match_def)
next
  case (Cons c r)
  show ?thesis
  proof (cases "c = CHR ''-''")
    case True
    with assms Cons obtain w where "unsigned_match r = Some (w, rest)"
      by (auto simp: number_match_def)
    from unsigned_match_length [OF this] Cons show ?thesis by simp
  next
    case False
    with assms Cons have "unsigned_match r = Some (v, rest) \<or> unsigned_match s = Some (v, rest)"
      by (auto simp: number_match_def split: if_splits)
    with Cons show ?thesis by (auto dest: unsigned_match_length)
  qed
qed

function coords_scan :: "string \<Rightarrow> (char \<rightharpoonup> real) \<Rightarrow> (char \<rightharpoonup> real)" where
  \<comment> \<open>the loop over \<open>COORD_RE.finditer(line)\<close>, filling the dictionary\<close>
  "coords_scan [] m = m"
| "coords_scan (c # cs) m =
     (if c \<in> set ''XYEIJRZxyeijrz''
      then (case number_match cs of
              Some (v, rest) \<Rightarrow> coords_scan rest (m(upper c \<mapsto> v))
            | None \<Rightarrow> coords_scan cs m)
      else coords_scan cs m)"
  by pat_completeness auto
termination
proof (relation "measure (\<lambda>(s, m). length s)")
  show "wf (measure (\<lambda>(s, m). length s))" by simp
next
  fix c :: char and cs rest :: string and m :: "char \<rightharpoonup> real" and x :: "real \<times> string" and v :: real
  assume "number_match cs = Some x" and "(v, rest) = x"
  then have "number_match cs = Some (v, rest)" by simp
  then have "length rest \<le> length cs" by (rule number_match_length)
  then show "((rest, m(upper c \<mapsto> v)), c # cs, m) \<in> measure (\<lambda>(s, m). length s)" by simp
next
  fix c :: char and cs :: string and m :: "char \<rightharpoonup> real"
  show "((cs, m), c # cs, m) \<in> measure (\<lambda>(s, m). length s)" by simp
next
  fix c :: char and cs :: string and m :: "char \<rightharpoonup> real"
  show "((cs, m), c # cs, m) \<in> measure (\<lambda>(s, m). length s)" by simp
qed

definition parse_coords :: "string \<Rightarrow> (char \<rightharpoonup> real)" where
  "parse_coords line = coords_scan line Map.empty"

section \<open>Motion-state tracker\<close>

text \<open>
  The local variables of \<open>parse_gcode_points_extrude\<close>. The debug print is an output on
  the console only; its counter is kept.
\<close>

record mstate =
  mode_absolute :: bool
  e_absolute :: bool
  cur_x :: real
  cur_y :: real
  cur_z :: real
  cur_e :: real
  last_e :: real
  e_offset :: real
  extruding_state :: int
  debug_count :: nat

type_synonym sample = "real \<times> real \<times> real \<times> int"

definition init_state :: mstate where
  "init_state = \<lparr>mode_absolute = True, e_absolute = True, cur_x = 0, cur_y = 0, cur_z = 0,
                  cur_e = 0, last_e = 0, e_offset = 0, extruding_state = 0, debug_count = 0\<rparr>"

definition mode_update :: "mstate \<Rightarrow> string \<Rightarrow> mstate" where
  \<comment> \<open>the \<open>if\<close>/\<open>elif\<close> chain on the start of the line\<close>
  "mode_update st line =
     (if startswith line ''G90'' then st\<lparr>mode_absolute := True\<rparr>
      else if startswith line ''G91'' then st\<lparr>mode_absolute := False\<rparr>
      else if startswith line ''M82'' then st\<lparr>e_absolute := True\<rparr>
      else if startswith line ''M83'' then st\<lparr>e_absolute := False\<rparr>
      else if startswith line ''G92'' then
        (let coords = parse_coords line;
             st1 = (case coords CHR ''E'' of
                      Some v \<Rightarrow> st\<lparr>cur_e := v, last_e := v, e_offset := v\<rparr>
                    | None \<Rightarrow> st)
         in case coords CHR ''Z'' of
              Some v \<Rightarrow> st1\<lparr>cur_z := v\<rparr>
            | None \<Rightarrow> st1)
      else st)"

definition motion_update :: "mstate \<Rightarrow> string \<Rightarrow> mstate \<times> sample option" where
  \<comment> \<open>the body of \<open>if MOVE_CMD_RE.search(line)\<close>\<close>
  "motion_update st line =
     (let coords = parse_coords line;
          x_found = (coords CHR ''X'' \<noteq> None);
          y_found = (coords CHR ''Y'' \<noteq> None);
          z_found = (coords CHR ''Z'' \<noteq> None);
          prev_e = cur_e st;
          st1 = (case coords CHR ''X'' of Some v \<Rightarrow> st\<lparr>cur_x := v\<rparr> | None \<Rightarrow> st);
          st2 = (case coords CHR ''Y'' of Some v \<Rightarrow> st1\<lparr>cur_y := v\<rparr> | None \<Rightarrow> st1);
          st3 = (case coords CHR ''Z'' of Some v \<Rightarrow> st2\<lparr>cur_z := v\<rparr> | None \<Rightarrow> st2);
          st4 = (case coords CHR ''E'' of
                   Some v \<Rightarrow>
                     if e_absolute st3
                     then st3\<lparr>cur_e := v, extruding_state := (if v > prev_e then 1 else 0)\<rparr>
                     else st3\<lparr>cur_e := cur_e st3 + v,
                              extruding_state := (if v > 0 then 1 else 0)\<rparr>
                 | None \<Rightarrow> st3);
          emit = (x_found \<or> y_found \<or> z_found);
          st5 = (if emit \<and> debug_count st4 < 20
                 then st4\<lparr>debug_count := debug_count st4 + 1\<rparr> else st4);
          out = (if emit then Some (cur_x st5, cur_y st5, cur_z st5, extruding_state st5)
                 else None)
      in (st5\<lparr>last_e := cur_e st5\<rparr>, out))"

definition extrude_step :: "mstate \<Rightarrow> string \<Rightarrow> mstate \<times> sample option" where
  \<comment> \<open>one pass of the loop \<open>for raw in fh\<close>: the new state and the sample yielded, if any\<close>
  "extrude_step st raw =
     (let line = strip_comments raw
      in if line = [] then (st, None)
         else (let st1 = mode_update st line
               in if move_cmd_search line then motion_update st1 line else (st1, None)))"

fun extrude_loop :: "mstate \<Rightarrow> string list \<Rightarrow> sample list" where
  "extrude_loop st [] = []"
| "extrude_loop st (raw # rest) =
     (case extrude_step st raw of
        (st', None) \<Rightarrow> extrude_loop st' rest
      | (st', Some s) \<Rightarrow> s # extrude_loop st' rest)"

definition parse_gcode_points_extrude :: "string list \<Rightarrow> sample list" where
  \<comment> \<open>the samples the generator yields on a file, given as the list of its lines\<close>
  "parse_gcode_points_extrude file = extrude_loop init_state file"

fun extrude_states :: "mstate \<Rightarrow> string list \<Rightarrow> mstate list" where
  \<comment> \<open>the state after each line\<close>
  "extrude_states st [] = []"
| "extrude_states st (raw # rest) =
     (let st' = fst (extrude_step st raw) in st' # extrude_states st' rest)"

definition collect_raw_points :: "string list \<Rightarrow> real list \<times> real list \<times> real list \<times> int list" where
  \<comment> \<open>\<open>collect_sparse_points(file_path, raw=True)\<close>\<close>
  "collect_raw_points file =
     (let pts = parse_gcode_points_extrude file
      in (map (\<lambda>(x, y, z, e). x) pts, map (\<lambda>(x, y, z, e). y) pts,
          map (\<lambda>(x, y, z, e). z) pts, map (\<lambda>(x, y, z, e). e) pts))"

definition carries :: "char \<Rightarrow> string \<Rightarrow> bool" where
  \<comment> \<open>the line, as the loop sees it, has a value for the axis letter\<close>
  "carries a raw = (parse_coords (strip_comments raw) a \<noteq> None)"

definition motion_line :: "string \<Rightarrow> bool" where
  \<comment> \<open>the line, as the loop sees it, is a recognized motion command\<close>
  "motion_line raw = move_cmd_search (strip_comments raw)"

definition emitting_line :: "string \<Rightarrow> bool" where
  \<comment> \<open>a motion line that specifies at least one of X, Y, Z\<close>
  "emitting_line raw =
     (motion_line raw \<and> (carries CHR ''X'' raw \<or> carries CHR ''Y'' raw \<or> carries CHR ''Z'' raw))"

definition sample_of :: "mstate \<Rightarrow> sample" where
  \<comment> \<open>the tuple \<open>(cur_x, cur_y, cur_z, extruding_state)\<close> of a state\<close>
  "sample_of st = (cur_x st, cur_y st, cur_z st, extruding_state st)"

section \<open>The two-dimensional parser\<close>

record pstate =
  p_mode_absolute :: bool
  p_cur_x :: real
  p_cur_y :: real

type_synonym point = "real \<times> real"

definition init_pstate :: pstate where
  "init_pstate = \<lparr>p_mode_absolute = True, p_cur_x = 0, p_cur_y = 0\<rparr>"

definition points_step :: "pstate \<Rightarrow> string \<Rightarrow> pstate \<times> point option" where
  \<comment> \<open>one pass of the loop of \<open>parse_gcode_points\<close>\<close>
  "points_step st raw =
     (let line = strip_comments raw
      in if line = [] then (st, None)
         else (let st1 = (if startswith line ''G90'' then st\<lparr>p_mode_absolute := True\<rparr>
                          else if startswith line ''G91'' then st\<lparr>p_mode_absolute := False\<rparr>
                          else st)
               in if move_cmd_search line
                  then (let coords = parse_coords line;
                            x_found = (coords CHR ''X'' \<noteq> None);
                            y_found = (coords CHR ''Y'' \<noteq> None);
                            st2 = (case coords CHR ''X'' of
                                     Some v \<Rightarrow> st1\<lparr>p_cur_x := v\<rparr> | None \<Rightarrow> st1);
                            st3 = (case coords CHR ''Y'' of
                                     Some v \<Rightarrow> st2\<lparr>p_cur_y := v\<rparr> | None \<Rightarrow> st2)
                        in (st3, if x_found \<or> y_found
                                 then Some (p_cur_x st3, p_cur_y st3) else None))
                  else (st1, None)))"

fun points_loop :: "pstate \<Rightarrow> string list \<Rightarrow> point list" where
  "points_loop st [] = []"
| "points_loop st (raw # rest) =
     (case points_step st raw of
        (st', None) \<Rightarrow> points_loop st' rest
      | (st', Some q) \<Rightarrow> q # points_loop st' rest)"

definition parse_gcode_points :: "string list \<Rightarrow> point list" where
  "parse_gcode_points file = points_loop init_pstate file"

section \<open>Corner-adaptive resampler and streaming batcher\<close>

datatype error = ValueError | ZeroDivisionError | IndexError

record config =
  batch_size :: int
  angle_threshold_deg :: real
  corner_density :: int
  straight_sample_dist :: real

definition default_config :: config where
  "default_config = \<lparr>batch_size = 1000, angle_threshold_deg = 30, corner_density = 6,
                      straight_sample_dist = 0.5\<rparr>"

definition radians :: "real \<Rightarrow> real" where
  "radians d = d * pi / 180"

definition hypot :: "real \<Rightarrow> real \<Rightarrow> real" where
  "hypot x y = sqrt (x * x + y * y)"

definition norm2 :: "point \<Rightarrow> real" where
  \<comment> \<open>\<open>np.linalg.norm\<close> of a vector of two components\<close>
  "norm2 a = sqrt (fst a * fst a + snd a * snd a)"

definition dot2 :: "point \<Rightarrow> point \<Rightarrow> real" where
  "dot2 a b = fst a * fst b + snd a * snd b"

definition acos :: "real \<Rightarrow> error + real" where
  \<comment> \<open>\<open>math.acos\<close>: a domain error outside of the interval from -1 to 1\<close>
  "acos c = (if - 1 \<le> c \<and> c \<le> 1 then Inr (arccos c) else Inl ValueError)"

definition angle_between :: "point \<Rightarrow> point \<Rightarrow> error + real" where
  "angle_between a b =
     (let na = norm2 a; nb = norm2 b
      in if na = 0 \<or> nb = 0 then Inr 0
         else (let c = dot2 a b / (na * nb);
                   c = max (- 1) (min 1 c)
               in acos c))"

definition linspace :: "real \<Rightarrow> real \<Rightarrow> int \<Rightarrow> error + real list" where
  \<comment> \<open>\<open>np.linspace(start, stop, num)\<close>: \<open>num\<close> evenly spaced values, both ends included\<close>
  "linspace start stop num =
     (if num < 0 then Inl ValueError
      else if num = 1 then Inr [start]
      else Inr (map (\<lambda>i. start + real i * ((stop - start) / real_of_int (num - 1)))
                  [0..<nat num]))"

definition side_points :: "point \<Rightarrow> point \<Rightarrow> int \<Rightarrow> error + point list" where
  \<comment> \<open>\<open>zip(np.linspace(a[0], b[0], n + 1)[1:], np.linspace(a[1], b[1], n + 1)[1:])\<close>\<close>
  "side_points a b n =
     (case linspace (fst a) (fst b) (n + 1) of
        Inl e \<Rightarrow> Inl e
      | Inr xs \<Rightarrow>
          (case linspace (snd a) (snd b) (n + 1) of
             Inl e \<Rightarrow> Inl e
           | Inr ys \<Rightarrow> Inr (zip (tl xs) (tl ys))))"

definition lin_interpolate :: "point \<Rightarrow> point \<Rightarrow> int \<Rightarrow> error + point list" where
  "lin_interpolate p0 p1 n = (if n \<le> 1 then Inr [p1] else side_points p0 p1 n)"

definition push :: "int \<Rightarrow> point list \<Rightarrow> point \<Rightarrow> point list \<times> point list option" where
  \<comment> \<open>the new buffer and the value returned: a batch, or \<open>None\<close>\<close>
  "push bs batch p =
     (let batch1 = batch @ [p]
      in if int (length batch1) \<ge> bs
         then (let tail = drop (length batch1 - 2) batch1;
                   to_yield = take (length batch1 - 2) batch1
               in (tail, Some to_yield))
         else (batch1, None))"

fun push_each :: "int \<Rightarrow> point list \<Rightarrow> point list \<Rightarrow> point list \<times> point list list" where
  \<comment> \<open>the loop \<open>for q in pts: res = push(q); if res is not None: yield res\<close>\<close>
  "push_each bs batch [] = (batch, [])"
| "push_each bs batch (q # qs) =
     (case push bs batch q of
        (b1, res) \<Rightarrow>
          (case push_each bs b1 qs of
             (b2, ys) \<Rightarrow> (b2, (case res of None \<Rightarrow> [] | Some y \<Rightarrow> [y]) @ ys)))"

definition segment_points :: "config \<Rightarrow> point \<Rightarrow> point \<Rightarrow> error + point list" where
  \<comment> \<open>the points \<open>_append_segment(a, b)\<close> pushes\<close>
  "segment_points cfg a b =
     (let dist = hypot (fst b - fst a) (snd b - snd a)
      in if dist \<le> 0 then Inr []
         else if straight_sample_dist cfg = 0 then Inl ZeroDivisionError
         else (let n = max 1 \<lceil>dist / straight_sample_dist cfg\<rceil>
               in lin_interpolate a b n))"

definition append_segment ::
  "config \<Rightarrow> point list \<Rightarrow> point \<Rightarrow> point \<Rightarrow> error + (point list \<times> point list list)" where
  "append_segment cfg batch a b =
     (case segment_points cfg a b of
        Inl e \<Rightarrow> Inl e
      | Inr pts \<Rightarrow> Inr (push_each (batch_size cfg) batch pts))"

record bstate =
  prev2 :: "point option"
  prev1 :: "point option"
  batch :: "point list"

definition init_bstate :: bstate where
  "init_bstate = \<lparr>prev2 = None, prev1 = None, batch = []\<rparr>"

definition vsub :: "point \<Rightarrow> point \<Rightarrow> point" where
  "vsub a b = (fst a - fst b, snd a - snd b)"

definition corner_push ::
  "config \<Rightarrow> point list \<Rightarrow> point \<Rightarrow> point \<Rightarrow> point \<Rightarrow> error + (point list \<times> point list list)" where
  \<comment> \<open>the branch \<open>if ang >= angle_threshold\<close>\<close>
  "corner_push cfg buf q2 q1 p =
     (case side_points q2 q1 (corner_density cfg) of
        Inl e \<Rightarrow> Inl e
      | Inr s1 \<Rightarrow>
          (case push_each (batch_size cfg) buf s1 of
             (b1, ys1) \<Rightarrow>
               (case side_points q1 p (corner_density cfg) of
                  Inl e \<Rightarrow> Inl e
                | Inr s2 \<Rightarrow>
                    (case push_each (batch_size cfg) b1 s2 of
                       (b2, ys2) \<Rightarrow> Inr (b2, ys1 @ ys2)))))"

definition batch_step :: "config \<Rightarrow> bstate \<Rightarrow> point \<Rightarrow> error + (bstate \<times> point list list)" where
  \<comment> \<open>one pass of the loop \<open>for p in gen\<close>: the new state and the batches yielded\<close>
  "batch_step cfg st p =
     (case prev1 st of
        None \<Rightarrow>
          (case push (batch_size cfg) (batch st) p of
             (b, res) \<Rightarrow>
               Inr (st\<lparr>prev1 := Some p, batch := b\<rparr>,
                    (case res of None \<Rightarrow> [] | Some y \<Rightarrow> [y])))
      | Some q1 \<Rightarrow>
          (case prev2 st of
             None \<Rightarrow>
               (case append_segment cfg (batch st) q1 p of
                  Inl e \<Rightarrow> Inl e
                | Inr (b, ys) \<Rightarrow> Inr (st\<lparr>prev2 := Some q1, prev1 := Some p, batch := b\<rparr>, ys))
           | Some q2 \<Rightarrow>
               (case angle_between (vsub q1 q2) (vsub p q1) of
                  Inl e \<Rightarrow> Inl e
                | Inr ang \<Rightarrow>
                    (case (if ang \<ge> radians (angle_threshold_deg cfg)
                           then corner_push cfg (batch st) q2 q1 p
                           else append_segment cfg (batch st) q1 p) of
                       Inl e \<Rightarrow> Inl e
                     | Inr (b, ys) \<Rightarrow>
                         Inr (st\<lparr>prev2 := Some q1, prev1 := Some p, batch := b\<rparr>, ys)))))"

fun batch_loop :: "config \<Rightarrow> bstate \<Rightarrow> point list \<Rightarrow> point list list \<times> (error + bstate)" where
  \<comment> \<open>the batches yielded while the input lasts, and the exception or the state at its end\<close>
  "batch_loop cfg st [] = ([], Inr st)"
| "batch_loop cfg st (p # ps) =
     (case batch_step cfg st p of
        Inl e \<Rightarrow> ([], Inl e)
      | Inr (st1, ys) \<Rightarrow>
          (case batch_loop cfg st1 ps of (zs, r) \<Rightarrow> (ys @ zs, r)))"

definition batch_points_for_spline :: "config \<Rightarrow> string list \<Rightarrow> point list list \<times> error option" where
  \<comment> \<open>all the batches the generator yields, and the exception that ended it, if any\<close>
  "batch_points_for_spline cfg file =
     (case batch_loop cfg init_bstate (parse_gcode_points file) of
        (ys, Inl e) \<Rightarrow> (ys, Some e)
      | (ys, Inr st) \<Rightarrow> (ys @ (if batch st \<noteq> [] then [batch st] else []), None))"

text \<open>
  The points handed to \<open>push\<close>, in order, with the buffer left out: the resampled points
  of an input.
\<close>

definition step_points :: "config \<Rightarrow> point option \<Rightarrow> point option \<Rightarrow> point \<Rightarrow> error + point list" where
  "step_points cfg w2 w1 p =
     (case w1 of
        None \<Rightarrow> Inr [p]
      | Some q1 \<Rightarrow>
          (case w2 of
             None \<Rightarrow> segment_points cfg q1 p
           | Some q2 \<Rightarrow>
               (case angle_between (vsub q1 q2) (vsub p q1) of
                  Inl e \<Rightarrow> Inl e
                | Inr ang \<Rightarrow>
                    if ang \<ge> radians (angle_threshold_deg cfg)
                    then (case side_points q2 q1 (corner_density cfg) of
                            Inl e \<Rightarrow> Inl e
                          | Inr s1 \<Rightarrow>
                              (case side_points q1 p (corner_density cfg) of
                                 Inl e \<Rightarrow> Inl e
                               | Inr s2 \<Rightarrow> Inr (s1 @ s2)))
                    else segment_points cfg q1 p)))"

fun resample_loop :: "config \<Rightarrow> point option \<Rightarrow> point option \<Rightarrow> point list \<Rightarrow> error + point list" where
  "resample_loop cfg w2 w1 [] = Inr []"
| "resample_loop cfg w2 w1 (p # ps) =
     (case step_points cfg w2 w1 p of
        Inl e \<Rightarrow> Inl e
      | Inr qs \<Rightarrow>
          (case resample_loop cfg w1 (Some p) ps of
             Inl e \<Rightarrow> Inl e
           | Inr rs \<Rightarrow> Inr (qs @ rs)))"

definition resampled_points :: "config \<Rightarrow> string list \<Rightarrow> error + point list" where
  "resampled_points cfg file = resample_loop cfg None None (parse_gcode_points file)"

section \<open>Point collector, sparse mode\<close>







section \<open>The batching contract\<close>

text \<open>
  The batching contract as it is described: points are buffered; when the buffer reaches or
  exceeds the batch size, all of it but the last two points is yielded and those two start
  the next buffer; at the end of the input what remains is yielded if it is not empty.
\<close>

fun batcher_spec :: "int \<Rightarrow> point list \<Rightarrow> point list \<Rightarrow> point list list" where
  "batcher_spec bs buf [] = (if buf \<noteq> [] then [buf] else [])"
| "batcher_spec bs buf (q # qs) =
     (let buf1 = buf @ [q]
      in if bs \<le> int (length buf1)
         then butlast (butlast buf1) # batcher_spec bs (rev (take 2 (rev buf1))) qs
         else batcher_spec bs buf1 qs)"

text \<open>
  Concatenation of batches that drops a two-point overlap at each boundary: the first two
  points of every batch after the first.
\<close>

definition drop_overlap :: "point list list \<Rightarrow> point list" where
  "drop_overlap ys = (case ys of [] \<Rightarrow> [] | y # rest \<Rightarrow> y @ concat (map (drop 2) rest))"

section \<open>The resampling contract\<close>



section \<open>Properties of the motion-state tracker\<close>

lemma move_cmd_search_prefix:
  assumes "move_cmd_search line"
  shows "\<exists>r. line = CHR ''G'' # CHR ''0'' # r \<or> line = CHR ''G'' # CHR ''1'' # r"
proof (cases line)
  case Nil
  with assms show ?thesis by (simp add: move_cmd_search_def startswith_def)
next
  case outer: (Cons a l1)
  show ?thesis
  proof (cases l1)
    case Nil
    with outer assms show ?thesis by (simp add: move_cmd_search_def startswith_def)
  next
    case (Cons b l2)
    with outer assms show ?thesis
      by (cases l2) (auto simp: move_cmd_search_def startswith_def)
  qed
qed

lemma move_cmd_search_Nil: "\<not> move_cmd_search []"
  by (simp add: move_cmd_search_def startswith_def)

lemma mode_update_motion:
  assumes "move_cmd_search line"
  shows "mode_update st line = st"
proof -
  from move_cmd_search_prefix [OF assms] obtain r where
    "line = CHR ''G'' # CHR ''0'' # r \<or> line = CHR ''G'' # CHR ''1'' # r" by blast
  then show ?thesis
    by (auto simp: mode_update_def startswith_def)
qed

lemma motion_update_sample:
  "snd (motion_update st line) =
     (if parse_coords line CHR ''X'' \<noteq> None \<or> parse_coords line CHR ''Y'' \<noteq> None \<or>
         parse_coords line CHR ''Z'' \<noteq> None
      then Some (sample_of (fst (motion_update st line))) else None)"
  by (simp add: motion_update_def sample_of_def Let_def split: option.splits)

lemma extrude_step_sample:
  "snd (extrude_step st raw) =
     (if emitting_line raw then Some (sample_of (fst (extrude_step st raw))) else None)"
proof (cases "move_cmd_search (strip_comments raw)")
  case True
  then have ne: "strip_comments raw \<noteq> []"
    using move_cmd_search_Nil by auto
  from True ne show ?thesis
    by (simp add: extrude_step_def emitting_line_def motion_line_def carries_def Let_def
        motion_update_sample)
next
  case False
  then show ?thesis
    by (simp add: extrude_step_def emitting_line_def motion_line_def Let_def)
qed

lemma extrude_loop_trace:
  "extrude_loop st ls =
     map (sample_of \<circ> snd) (filter (emitting_line \<circ> fst) (zip ls (extrude_states st ls)))"
proof (induction ls arbitrary: st)
  case Nil
  show ?case by simp
next
  case (Cons raw rest)
  obtain st' out where step: "extrude_step st raw = (st', out)"
    by (cases "extrude_step st raw")
  from step have f: "fst (extrude_step st raw) = st'" and s: "snd (extrude_step st raw) = out"
    by simp_all
  have out: "out = (if emitting_line raw then Some (sample_of st') else None)"
    using extrude_step_sample [of st raw] unfolding f s .
  show ?case
    using step f out Cons.IH [of st'] by (simp add: Let_def)
qed

lemma length_extrude_states: "length (extrude_states st ls) = length ls"
  by (induction ls arbitrary: st) (simp_all add: Let_def)

lemma filter_zip_fst:
  "length ys = length xs \<Longrightarrow>
   map fst (filter (P \<circ> fst) (zip xs ys)) = filter P xs"
  by (induction xs ys rule: list_induct2') simp_all

lemma unzip4_samples:
  "zip (map (\<lambda>(x, y, z, e). x) pts)
     (zip (map (\<lambda>(x, y, z, e). y) pts)
        (zip (map (\<lambda>(x, y, z, e). z) pts) (map (\<lambda>(x, y, z, e). e) pts))) = pts"
  by (induction pts) auto

lemma startswith_append: "startswith line p \<Longrightarrow> \<exists>r. line = p @ r"
  unfolding startswith_def by (metis append_take_drop_id)

lemma extrude_step_motion:
  assumes "motion_line raw"
  shows "extrude_step st raw = motion_update st (strip_comments raw)"
proof -
  from assms have m: "move_cmd_search (strip_comments raw)"
    by (simp add: motion_line_def)
  then have ne: "strip_comments raw \<noteq> []"
    using move_cmd_search_Nil by auto
  from m ne show ?thesis
    by (simp add: extrude_step_def Let_def mode_update_motion)
qed

lemma extrude_step_g92:
  assumes "startswith (strip_comments raw) ''G92''"
  shows "extrude_step st raw = (mode_update st (strip_comments raw), None)"
proof -
  from startswith_append [OF assms] obtain r where l: "strip_comments raw = ''G92'' @ r" by blast
  have "\<not> move_cmd_search (strip_comments raw)"
    using move_cmd_search_prefix [of "strip_comments raw"] l by auto
  with l show ?thesis
    by (simp add: extrude_step_def Let_def)
qed

text \<open>
  Claim C1. Raw-mode extraction yields exactly one sample \<open>(cur_x, cur_y, cur_z, extruding)\<close>
  for each recognized motion line that specifies at least one of X, Y, Z, and none for any
  other line (a motion line carrying only E among them). The samples are those states, in
  the order of the lines, and the four sequences returned have the same length and are the
  columns of the sample list.
\<close>
theorem raw_mode_one_sample_per_emitting_line:
  "parse_gcode_points_extrude ls =
     map (sample_of \<circ> snd)
       (filter (emitting_line \<circ> fst) (zip ls (extrude_states init_state ls))) \<and>
   length (parse_gcode_points_extrude ls) = length (filter emitting_line ls) \<and>
   (\<exists>xs ys zs es. collect_raw_points ls = (xs, ys, zs, es) \<and>
      length xs = length (filter emitting_line ls) \<and>
      length ys = length xs \<and> length zs = length xs \<and> length es = length xs \<and>
      zip xs (zip ys (zip zs es)) = parse_gcode_points_extrude ls)"
proof -
  have tr: "parse_gcode_points_extrude ls =
     map (sample_of \<circ> snd)
       (filter (emitting_line \<circ> fst) (zip ls (extrude_states init_state ls)))"
    unfolding parse_gcode_points_extrude_def by (rule extrude_loop_trace)
  have "length (parse_gcode_points_extrude ls) =
        length (map fst (filter (emitting_line \<circ> fst) (zip ls (extrude_states init_state ls))))"
    unfolding tr by simp
  also have "\<dots> = length (filter emitting_line ls)"
    by (simp only: filter_zip_fst [OF length_extrude_states])
  finally have len: "length (parse_gcode_points_extrude ls) = length (filter emitting_line ls)" .
  have col: "\<exists>xs ys zs es. collect_raw_points ls = (xs, ys, zs, es) \<and>
      length xs = length (filter emitting_line ls) \<and>
      length ys = length xs \<and> length zs = length xs \<and> length es = length xs \<and>
      zip xs (zip ys (zip zs es)) = parse_gcode_points_extrude ls"
    using len by (simp add: collect_raw_points_def Let_def unzip4_samples)
  from tr len col show ?thesis by blast
qed

theorem raw_mode_one_sample_per_emitting_line_witness:
  "parse_gcode_points_extrude [''G1 X5'', ''G1 E5 ; only E'', ''G0 Y3''] = [(5, 0, 0, 0), (5, 3, 0, 1)] \<and>
   length (filter emitting_line [''G1 X5'', ''G1 E5 ; only E'', ''G0 Y3'']) = 2"
proof -
  have a: "parse_gcode_points_extrude [''G1 X5'', ''G1 E5 ; only E'', ''G0 Y3''] = [(5, 0, 0, 0), (5, 3, 0, 1)]"
    by code_simp
  have b: "length (parse_gcode_points_extrude [''G1 X5'', ''G1 E5 ; only E'', ''G0 Y3'']) =
           length (filter emitting_line [''G1 X5'', ''G1 E5 ; only E'', ''G0 Y3''])"
    using raw_mode_one_sample_per_emitting_line [of "[''G1 X5'', ''G1 E5 ; only E'', ''G0 Y3'']"]
    by blast
  have c: "length [(5, 0, 0, 0), (5, 3, 0, 1) :: sample] = 2" by simp
  from b have "length (filter emitting_line [''G1 X5'', ''G1 E5 ; only E'', ''G0 Y3'']) = 2"
    unfolding a c by (rule sym)
  with a show ?thesis by (rule conjI)
qed

text \<open>
  Claim C3. On a motion line each of X, Y, Z that is present overwrites the current value of
  its axis with the parsed value, whatever the G90/G91 flag is, and an absent axis keeps the
  value it had before the line; the sample emitted carries these values.
\<close>
theorem motion_axis_overwrite_or_keep:
  assumes "motion_line raw"
  shows "cur_x (fst (extrude_step st raw)) =
           (case parse_coords (strip_comments raw) CHR ''X'' of Some v \<Rightarrow> v | None \<Rightarrow> cur_x st) \<and>
         cur_y (fst (extrude_step st raw)) =
           (case parse_coords (strip_comments raw) CHR ''Y'' of Some v \<Rightarrow> v | None \<Rightarrow> cur_y st) \<and>
         cur_z (fst (extrude_step st raw)) =
           (case parse_coords (strip_comments raw) CHR ''Z'' of Some v \<Rightarrow> v | None \<Rightarrow> cur_z st) \<and>
         fst (extrude_step (st\<lparr>mode_absolute := b\<rparr>) raw) =
           (fst (extrude_step st raw))\<lparr>mode_absolute := b\<rparr> \<and>
         snd (extrude_step (st\<lparr>mode_absolute := b\<rparr>) raw) = snd (extrude_step st raw) \<and>
         (\<forall>x y z e. snd (extrude_step st raw) = Some (x, y, z, e) \<longrightarrow>
            x = cur_x (fst (extrude_step st raw)) \<and> y = cur_y (fst (extrude_step st raw)) \<and>
            z = cur_z (fst (extrude_step st raw)))"
proof -
  note m = extrude_step_motion [OF assms]
  have x: "cur_x (fst (motion_update st (strip_comments raw))) =
           (case parse_coords (strip_comments raw) CHR ''X'' of Some v \<Rightarrow> v | None \<Rightarrow> cur_x st)"
    by (simp add: motion_update_def Let_def split: option.splits)
  have y: "cur_y (fst (motion_update st (strip_comments raw))) =
           (case parse_coords (strip_comments raw) CHR ''Y'' of Some v \<Rightarrow> v | None \<Rightarrow> cur_y st)"
    by (simp add: motion_update_def Let_def split: option.splits)
  have z: "cur_z (fst (motion_update st (strip_comments raw))) =
           (case parse_coords (strip_comments raw) CHR ''Z'' of Some v \<Rightarrow> v | None \<Rightarrow> cur_z st)"
    by (simp add: motion_update_def Let_def split: option.splits)
  have f: "fst (motion_update (st\<lparr>mode_absolute := b\<rparr>) (strip_comments raw)) =
           (fst (motion_update st (strip_comments raw)))\<lparr>mode_absolute := b\<rparr>"
    by (simp add: motion_update_def Let_def split: option.splits)
  have s: "snd (motion_update (st\<lparr>mode_absolute := b\<rparr>) (strip_comments raw)) =
           snd (motion_update st (strip_comments raw))"
    by (simp add: motion_update_def Let_def split: option.splits)
  have e: "\<forall>x y z e. snd (motion_update st (strip_comments raw)) = Some (x, y, z, e) \<longrightarrow>
            x = cur_x (fst (motion_update st (strip_comments raw))) \<and>
            y = cur_y (fst (motion_update st (strip_comments raw))) \<and>
            z = cur_z (fst (motion_update st (strip_comments raw)))"
    by (simp add: motion_update_sample sample_of_def)
  from x y z f s e show ?thesis
    unfolding m by blast
qed

theorem motion_axis_overwrite_or_keep_witness:
  "motion_line ''G1 Y3'' \<and>
   cur_x (fst (extrude_step (init_state\<lparr>cur_x := 5, mode_absolute := False\<rparr>) ''G1 Y3'')) = 5 \<and>
   cur_y (fst (extrude_step (init_state\<lparr>cur_x := 5, mode_absolute := False\<rparr>) ''G1 Y3'')) = 3 \<and>
   snd (extrude_step (init_state\<lparr>cur_x := 5, mode_absolute := False\<rparr>) ''G1 Y3'') = Some (5, 3, 0, 0)"
proof -
  have m: "motion_line ''G1 Y3''" by code_simp
  have c: "parse_coords (strip_comments ''G1 Y3'') CHR ''X'' = None"
          "parse_coords (strip_comments ''G1 Y3'') CHR ''Y'' = Some 3"
    by code_simp+
  have s: "snd (extrude_step (init_state\<lparr>cur_x := 5, mode_absolute := False\<rparr>) ''G1 Y3'') = Some (5, 3, 0, 0)"
    by code_simp
  from motion_axis_overwrite_or_keep [OF m, of "init_state\<lparr>cur_x := 5, mode_absolute := False\<rparr>" True] m c s
  show ?thesis by simp
qed

text \<open>
  Claim C4. A G92 line sets \<open>cur_e\<close>, \<open>last_e\<close> and \<open>e_offset\<close> to the E value when E is
  present and \<open>cur_z\<close> to the Z value when Z is present, emits no sample, and leaves
  \<open>cur_x\<close> and \<open>cur_y\<close> unchanged.
\<close>
theorem g92_snaps_e_and_z_without_sample:
  assumes "startswith (strip_comments raw) ''G92''"
  shows "snd (extrude_step st raw) = None \<and>
         cur_x (fst (extrude_step st raw)) = cur_x st \<and>
         cur_y (fst (extrude_step st raw)) = cur_y st \<and>
         cur_e (fst (extrude_step st raw)) =
           (case parse_coords (strip_comments raw) CHR ''E'' of Some v \<Rightarrow> v | None \<Rightarrow> cur_e st) \<and>
         last_e (fst (extrude_step st raw)) =
           (case parse_coords (strip_comments raw) CHR ''E'' of Some v \<Rightarrow> v | None \<Rightarrow> last_e st) \<and>
         e_offset (fst (extrude_step st raw)) =
           (case parse_coords (strip_comments raw) CHR ''E'' of Some v \<Rightarrow> v | None \<Rightarrow> e_offset st) \<and>
         cur_z (fst (extrude_step st raw)) =
           (case parse_coords (strip_comments raw) CHR ''Z'' of Some v \<Rightarrow> v | None \<Rightarrow> cur_z st)"
proof -
  from startswith_append [OF assms] obtain r where l: "strip_comments raw = ''G92'' @ r" by blast
  have mu: "mode_update st (strip_comments raw) =
        (let coords = parse_coords (strip_comments raw);
             st1 = (case coords CHR ''E'' of
                      Some v \<Rightarrow> st\<lparr>cur_e := v, last_e := v, e_offset := v\<rparr>
                    | None \<Rightarrow> st)
         in case coords CHR ''Z'' of
              Some v \<Rightarrow> st1\<lparr>cur_z := v\<rparr>
            | None \<Rightarrow> st1)"
    unfolding mode_update_def l by (simp add: startswith_def)
  show ?thesis
    unfolding extrude_step_g92 [OF assms] mu
    by (simp add: Let_def split: option.splits)
qed

theorem g92_snaps_e_and_z_without_sample_witness:
  "startswith (strip_comments ''G92 E0 Z1.5 ; reset'') ''G92'' \<and>
   extrude_step (init_state\<lparr>cur_x := 4, cur_y := 7, cur_e := 12\<rparr>) ''G92 E0 Z1.5 ; reset'' =
     (init_state\<lparr>cur_x := 4, cur_y := 7, cur_e := 0, cur_z := 1.5\<rparr>, None)"
proof -
  have a: "startswith (strip_comments ''G92 E0 Z1.5 ; reset'') ''G92''" by code_simp
  have b: "extrude_step (init_state\<lparr>cur_x := 4, cur_y := 7, cur_e := 12\<rparr>) ''G92 E0 Z1.5 ; reset'' =
     (init_state\<lparr>cur_x := 4, cur_y := 7, cur_e := 0, cur_z := 1.5\<rparr>, None)"
    by code_simp
  from g92_snaps_e_and_z_without_sample [OF a, of "init_state\<lparr>cur_x := 4, cur_y := 7, cur_e := 12\<rparr>"] a b
  show ?thesis by simp
qed

text \<open>
  Claim C2, as stated, fails: after \<open>G1 X1 E1\<close> and the E-only line \<open>G1 E0\<close>, the line
  \<open>G1 X2\<close> carries no E, yet its sample has flag 0 while the previous sample has flag 1.
\<close>
theorem sticky_flag_counterexample:
  "motion_line ''G1 X2'' \<and> \<not> carries CHR ''E'' ''G1 X2'' \<and>
   parse_gcode_points_extrude [''G1 X1 E1'', ''G1 E0'', ''G1 X2''] = [(1, 0, 0, 1), (2, 0, 0, 0)] \<and>
   snd (snd (snd (parse_gcode_points_extrude [''G1 X1 E1'', ''G1 E0'', ''G1 X2''] ! 1))) \<noteq>
   snd (snd (snd (parse_gcode_points_extrude [''G1 X1 E1'', ''G1 E0'', ''G1 X2''] ! 0)))"
proof -
  have a: "motion_line ''G1 X2''" by code_simp
  have b: "\<not> carries CHR ''E'' ''G1 X2''" by code_simp
  have c: "parse_gcode_points_extrude [''G1 X1 E1'', ''G1 E0'', ''G1 X2''] = [(1, 0, 0, 1), (2, 0, 0, 0)]"
    by code_simp
  from a b c show ?thesis by simp
qed

text \<open>
  Claim C2, amended. On a motion line that carries E, under absolute E \<open>cur_e\<close> becomes the
  E value and the flag is 1 exactly when that value exceeds the previous \<open>cur_e\<close>, and under
  relative E (after M83) \<open>cur_e\<close> grows by the E value and the flag is 1 exactly when the
  value is positive. On a motion line without E the flag and \<open>cur_e\<close> keep the values they
  had after the preceding line. An emitted sample carries the flag of the state. Initially
  \<open>cur_e\<close> and the flag are 0 and E is absolute.
\<close>
theorem extrusion_flag_update:
  assumes "motion_line raw"
  shows "(case parse_coords (strip_comments raw) CHR ''E'' of
            Some v \<Rightarrow>
              if e_absolute st
              then cur_e (fst (extrude_step st raw)) = v \<and>
                   extruding_state (fst (extrude_step st raw)) = (if v > cur_e st then 1 else 0)
              else cur_e (fst (extrude_step st raw)) = cur_e st + v \<and>
                   extruding_state (fst (extrude_step st raw)) = (if v > 0 then 1 else 0)
          | None \<Rightarrow>
              cur_e (fst (extrude_step st raw)) = cur_e st \<and>
              extruding_state (fst (extrude_step st raw)) = extruding_state st) \<and>
         (\<forall>x y z e. snd (extrude_step st raw) = Some (x, y, z, e) \<longrightarrow>
            e = extruding_state (fst (extrude_step st raw))) \<and>
         cur_e init_state = 0 \<and> extruding_state init_state = 0 \<and> e_absolute init_state \<and>
         (startswith (strip_comments other) ''M83'' \<longrightarrow>
            \<not> e_absolute (fst (extrude_step st other)) \<and> snd (extrude_step st other) = None)"
proof -
  note m = extrude_step_motion [OF assms]
  have e: "(case parse_coords (strip_comments raw) CHR ''E'' of
            Some v \<Rightarrow>
              if e_absolute st
              then cur_e (fst (motion_update st (strip_comments raw))) = v \<and>
                   extruding_state (fst (motion_update st (strip_comments raw))) =
                     (if v > cur_e st then 1 else 0)
              else cur_e (fst (motion_update st (strip_comments raw))) = cur_e st + v \<and>
                   extruding_state (fst (motion_update st (strip_comments raw))) =
                     (if v > 0 then 1 else 0)
          | None \<Rightarrow>
              cur_e (fst (motion_update st (strip_comments raw))) = cur_e st \<and>
              extruding_state (fst (motion_update st (strip_comments raw))) = extruding_state st)"
    by (simp add: motion_update_def Let_def split: option.splits)
  have s: "\<forall>x y z e. snd (motion_update st (strip_comments raw)) = Some (x, y, z, e) \<longrightarrow>
            e = extruding_state (fst (motion_update st (strip_comments raw)))"
    by (simp add: motion_update_sample sample_of_def)
  have i: "cur_e init_state = 0 \<and> extruding_state init_state = 0 \<and> e_absolute init_state"
    by (simp add: init_state_def)
  have r: "startswith (strip_comments other) ''M83'' \<longrightarrow>
            \<not> e_absolute (fst (extrude_step st other)) \<and> snd (extrude_step st other) = None"
  proof
    assume a: "startswith (strip_comments other) ''M83''"
    from startswith_append [OF a] obtain r where l: "strip_comments other = ''M83'' @ r" by blast
    have nm: "\<not> move_cmd_search (strip_comments other)"
      using move_cmd_search_prefix [of "strip_comments other"] l by auto
    have mu: "mode_update st (strip_comments other) = st\<lparr>e_absolute := False\<rparr>"
      unfolding mode_update_def l by (simp add: startswith_def)
    from nm l mu show "\<not> e_absolute (fst (extrude_step st other)) \<and> snd (extrude_step st other) = None"
      by (simp add: extrude_step_def Let_def)
  qed
  from e s i r show ?thesis
    unfolding m by blast
qed

theorem extrusion_flag_update_witness:
  "motion_line ''G1 X2 E2'' \<and>
   extrude_step (init_state\<lparr>cur_e := 1\<rparr>) ''G1 X2 E2'' =
     (init_state\<lparr>cur_x := 2, cur_e := 2, last_e := 2, extruding_state := 1, debug_count := 1\<rparr>,
      Some (2, 0, 0, 1)) \<and>
   startswith (strip_comments ''M83'') ''M83'' \<and>
   \<not> e_absolute (fst (extrude_step init_state ''M83''))"
proof -
  have a: "motion_line ''G1 X2 E2''" by code_simp
  have b: "extrude_step (init_state\<lparr>cur_e := 1\<rparr>) ''G1 X2 E2'' =
     (init_state\<lparr>cur_x := 2, cur_e := 2, last_e := 2, extruding_state := 1, debug_count := 1\<rparr>,
      Some (2, 0, 0, 1))" by code_simp
  have c: "startswith (strip_comments ''M83'') ''M83''" by code_simp
  from extrusion_flag_update [OF a, of init_state "''M83''"] a b c
  show ?thesis by simp
qed

section \<open>Properties of the streaming batcher\<close>

lemma take_butlast2: "take (length xs - 2) xs = butlast (butlast xs)"
  by (simp add: butlast_conv_take numeral_2_eq_2)

lemma drop_last2: "drop (length xs - 2) xs = rev (take 2 (rev xs))"
  by (simp add: take_rev)

lemma push_each_append:
  "push_each bs b (xs @ ys) =
     (fst (push_each bs (fst (push_each bs b xs)) ys),
      snd (push_each bs b xs) @ snd (push_each bs (fst (push_each bs b xs)) ys))"
  by (induction xs arbitrary: b) (simp_all split: prod.splits)

lemma push_each_concat:
  "concat (snd (push_each bs b pts)) @ fst (push_each bs b pts) = b @ pts"
proof (induction pts arbitrary: b)
  case Nil
  show ?case by simp
next
  case (Cons q qs)
  obtain b1 res where p: "push bs b q = (b1, res)" by (cases "push bs b q")
  have k: "(case res of None \<Rightarrow> [] | Some y \<Rightarrow> y) @ b1 = b @ [q]"
    using p by (auto simp: push_def Let_def split: if_splits)
  have "concat (snd (push_each bs b (q # qs))) @ fst (push_each bs b (q # qs)) =
        (case res of None \<Rightarrow> [] | Some y \<Rightarrow> y) @
        (concat (snd (push_each bs b1 qs)) @ fst (push_each bs b1 qs))"
    using p by (simp split: prod.splits option.splits)
  also have "\<dots> = (case res of None \<Rightarrow> [] | Some y \<Rightarrow> y) @ (b1 @ qs)"
    by (simp only: Cons.IH)
  also have "\<dots> = (b @ [q]) @ qs"
    using k by (metis append_assoc)
  finally show ?case by simp
qed

lemma push_each_spec:
  "batcher_spec bs b pts =
     snd (push_each bs b pts) @
     (if fst (push_each bs b pts) \<noteq> [] then [fst (push_each bs b pts)] else [])"
proof (induction pts arbitrary: b)
  case Nil
  show ?case by simp
next
  case (Cons q qs)
  show ?case
  proof (cases "bs \<le> int (length (b @ [q]))")
    case True
    then have p: "push bs b q = (rev (take 2 (rev (b @ [q]))), Some (butlast (butlast (b @ [q]))))"
      unfolding push_def Let_def by (simp only: if_True take_butlast2 drop_last2)
    show ?thesis
      using True Cons.IH [of "rev (take 2 (rev (b @ [q])))"]
      by (simp only: batcher_spec.simps push_each.simps Let_def if_True p) (simp split: prod.splits)
  next
    case False
    then have p: "push bs b q = (b @ [q], None)"
      unfolding push_def Let_def by simp
    show ?thesis
      using False Cons.IH [of "b @ [q]"]
      by (simp only: batcher_spec.simps push_each.simps Let_def if_False p) (simp split: prod.splits)
  qed
qed

lemma push_each_Cons:
  "push_each bs b (q # qs) =
     (fst (push_each bs (fst (push bs b q)) qs),
      (case snd (push bs b q) of None \<Rightarrow> [] | Some y \<Rightarrow> [y]) @
      snd (push_each bs (fst (push bs b q)) qs))"
  by (simp split: prod.splits)

lemma push_each_sizes:
  assumes "3 \<le> bs" and "int (length b) < bs"
  shows "(\<forall>y \<in> set (snd (push_each bs b pts)). int (length y) = bs - 2) \<and>
         int (length (fst (push_each bs b pts))) < bs"
  using assms(2)
proof (induction pts arbitrary: b)
  case Nil
  then show ?case by simp
next
  case (Cons q qs)
  show ?case
  proof (cases "bs \<le> int (length (b @ [q]))")
    case True
    with Cons.prems have len: "int (length b) + 1 = bs" by simp
    define T where "T = drop (length (b @ [q]) - 2) (b @ [q])"
    define Y where "Y = take (length (b @ [q]) - 2) (b @ [q])"
    have p: "push bs b q = (T, Some Y)"
      using True unfolding push_def Let_def T_def Y_def by simp
    have l2: "int (length T) < bs"
      using len assms(1) unfolding T_def by simp
    have l1: "int (length Y) = bs - 2"
      using len assms(1) unfolding Y_def by simp
    from Cons.IH [OF l2] l1 show ?thesis
      unfolding push_each_Cons p fst_conv snd_conv by simp
  next
    case False
    then have p: "push bs b q = (b @ [q], None)"
      unfolding push_def Let_def by simp
    from False have "int (length (b @ [q])) < bs" by simp
    from Cons.IH [OF this] show ?thesis
      unfolding push_each_Cons p fst_conv snd_conv by simp
  qed
qed

lemma push_each_small_empty:
  assumes "bs \<le> 2"
  shows "[] \<in> set (snd (push_each bs [] (q1 # q2 # qs)))"
proof (cases "bs \<le> 1")
  case True
  then show ?thesis by (simp add: push_def Let_def split: prod.splits)
next
  case False
  with assms have "bs = 2" by simp
  then show ?thesis by (simp add: push_def Let_def split: prod.splits)
qed

lemma batch_step_points:
  assumes inv: "prev1 st = None \<longrightarrow> prev2 st = None"
  shows "batch_step cfg st p =
     (case step_points cfg (prev2 st) (prev1 st) p of
        Inl e \<Rightarrow> Inl e
      | Inr qs \<Rightarrow>
          Inr (st\<lparr>prev2 := prev1 st, prev1 := Some p,
                   batch := fst (push_each (batch_size cfg) (batch st) qs)\<rparr>,
               snd (push_each (batch_size cfg) (batch st) qs)))"
proof (cases "prev1 st")
  case None
  with inv have n2: "prev2 st = None" by simp
  have "st\<lparr>prev1 := Some p, batch := b\<rparr> = st\<lparr>prev2 := None, prev1 := Some p, batch := b\<rparr>" for b
    using n2 by simp
  then show ?thesis
    using None by (simp add: batch_step_def step_points_def split: prod.splits option.splits)
next
  case s1: (Some q1)
  show ?thesis
  proof (cases "prev2 st")
    case None
    with s1 show ?thesis
      by (simp add: batch_step_def step_points_def append_segment_def split: sum.splits prod.splits)
  next
    case s2: (Some q2)
    show ?thesis
    proof (cases "angle_between (vsub q1 q2) (vsub p q1)")
      case (Inl e)
      with s1 s2 show ?thesis by (simp add: batch_step_def step_points_def)
    next
      case (Inr ang)
      show ?thesis
      proof (cases "radians (angle_threshold_deg cfg) \<le> ang")
        case True
        have c: "corner_push cfg (batch st) q2 q1 p =
             (case side_points q2 q1 (corner_density cfg) of
                Inl e \<Rightarrow> Inl e
              | Inr t1 \<Rightarrow>
                  (case side_points q1 p (corner_density cfg) of
                     Inl e \<Rightarrow> Inl e
                   | Inr t2 \<Rightarrow> Inr (push_each (batch_size cfg) (batch st) (t1 @ t2))))"
          by (simp add: corner_push_def push_each_append split: sum.splits prod.splits)
        from s1 s2 Inr True show ?thesis
          by (simp add: batch_step_def step_points_def c split: sum.splits prod.splits)
      next
        case False
        with s1 s2 Inr show ?thesis
          by (simp add: batch_step_def step_points_def append_segment_def
              split: sum.splits prod.splits)
      qed
    qed
  qed
qed

lemma batch_loop_resample:
  assumes "prev1 st = None \<longrightarrow> prev2 st = None"
  shows "case resample_loop cfg (prev2 st) (prev1 st) ps of
           Inr pts \<Rightarrow>
             fst (batch_loop cfg st ps) = snd (push_each (batch_size cfg) (batch st) pts) \<and>
             (\<exists>st'. snd (batch_loop cfg st ps) = Inr st' \<and>
                    batch st' = fst (push_each (batch_size cfg) (batch st) pts))
         | Inl e \<Rightarrow> snd (batch_loop cfg st ps) = Inl e"
  using assms
proof (induction ps arbitrary: st)
  case Nil
  show ?case by simp
next
  case (Cons p ps)
  note bs = batch_step_points [OF Cons.prems, of cfg p]
  show ?case
  proof (cases "step_points cfg (prev2 st) (prev1 st) p")
    case (Inl e)
    with bs show ?thesis by simp
  next
    case (Inr qs)
    define st1 where "st1 = st\<lparr>prev2 := prev1 st, prev1 := Some p,
                   batch := fst (push_each (batch_size cfg) (batch st) qs)\<rparr>"
    have b1: "batch_step cfg st p = Inr (st1, snd (push_each (batch_size cfg) (batch st) qs))"
      using bs Inr unfolding st1_def by simp
    have i1: "prev1 st1 = None \<longrightarrow> prev2 st1 = None" unfolding st1_def by simp
    have w: "prev2 st1 = prev1 st" "prev1 st1 = Some p"
            "batch st1 = fst (push_each (batch_size cfg) (batch st) qs)"
      unfolding st1_def by simp_all
    note ih = Cons.IH [OF i1]
    have unf: "batch_loop cfg st (p # ps) =
            (snd (push_each (batch_size cfg) (batch st) qs) @ fst (batch_loop cfg st1 ps),
             snd (batch_loop cfg st1 ps))"
      using b1 by (simp split: prod.splits)
    show ?thesis
    proof (cases "resample_loop cfg (prev1 st) (Some p) ps")
      case l: (Inl e)
      with ih have "snd (batch_loop cfg st1 ps) = Inl e" by (simp add: w)
      with Inr l show ?thesis unfolding unf by simp
    next
      case r: (Inr rs)
      with ih have f: "fst (batch_loop cfg st1 ps) =
                       snd (push_each (batch_size cfg) (batch st1) rs)"
        and s: "\<exists>st'. snd (batch_loop cfg st1 ps) = Inr st' \<and>
                    batch st' = fst (push_each (batch_size cfg) (batch st1) rs)"
        by (simp_all add: w)
      from s obtain st' where s': "snd (batch_loop cfg st1 ps) = Inr st'"
        "batch st' = fst (push_each (batch_size cfg) (batch st1) rs)" by blast
      from f s' Inr r show ?thesis
        unfolding unf by (simp add: push_each_append w)
    qed
  qed
qed

lemma batch_loop_sizes:
  assumes "3 \<le> batch_size cfg"
    and "prev1 st = None \<longrightarrow> prev2 st = None"
    and "int (length (batch st)) < batch_size cfg"
  shows "\<forall>y \<in> set (fst (batch_loop cfg st ps)). int (length y) = batch_size cfg - 2"
  using assms(2,3)
proof (induction ps arbitrary: st)
  case Nil
  show ?case by simp
next
  case (Cons p ps)
  note bs = batch_step_points [OF Cons.prems(1), of cfg p]
  show ?case
  proof (cases "step_points cfg (prev2 st) (prev1 st) p")
    case (Inl e)
    with bs show ?thesis by simp
  next
    case (Inr qs)
    define st1 where "st1 = st\<lparr>prev2 := prev1 st, prev1 := Some p,
                   batch := fst (push_each (batch_size cfg) (batch st) qs)\<rparr>"
    have b1: "batch_step cfg st p = Inr (st1, snd (push_each (batch_size cfg) (batch st) qs))"
      using bs Inr unfolding st1_def by simp
    have i1: "prev1 st1 = None \<longrightarrow> prev2 st1 = None" unfolding st1_def by simp
    note sz = push_each_sizes [OF assms(1) Cons.prems(2), of qs]
    have i2: "int (length (batch st1)) < batch_size cfg"
      using sz unfolding st1_def by simp
    have "fst (batch_loop cfg st (p # ps)) =
            snd (push_each (batch_size cfg) (batch st) qs) @ fst (batch_loop cfg st1 ps)"
      using b1 by (simp split: prod.splits)
    with Cons.IH [OF i1 i2] sz show ?thesis by auto
  qed
qed

lemma two_line_points: "parse_gcode_points [''G1 X0 Y0'', ''G1 X1 Y0''] = [(0, 0), (1, 0)]"
  by code_simp

lemma two_line_resample:
  assumes "straight_sample_dist cfg = 1 / 2"
  shows "resample_loop cfg None None [(0, 0), (1, 0)] = Inr [(0, 0), (1 / 2, 0), (1, 0)]"
proof -
  have "segment_points cfg (0, 0) (1, 0) = Inr [(1 / 2, 0), (1, 0)]"
    unfolding segment_points_def assms
    by (simp add: hypot_def lin_interpolate_def side_points_def linspace_def Let_def
        upt_conv_Cons)
  then show ?thesis
    by (simp add: step_points_def)
qed

lemma batch_points_unfold:
  "batch_points_for_spline cfg fl =
     (case snd (batch_loop cfg init_bstate (parse_gcode_points fl)) of
        Inl e \<Rightarrow> (fst (batch_loop cfg init_bstate (parse_gcode_points fl)), Some e)
      | Inr st \<Rightarrow>
          (fst (batch_loop cfg init_bstate (parse_gcode_points fl)) @
             (if batch st \<noteq> [] then [batch st] else []), None))"
proof -
  obtain a b where e: "batch_loop cfg init_bstate (parse_gcode_points fl) = (a, b)"
    by (cases "batch_loop cfg init_bstate (parse_gcode_points fl)")
  show ?thesis
    unfolding batch_points_for_spline_def e by (cases b) simp_all
qed

lemma no_error_run:
  assumes "batch_points_for_spline cfg fl = (ys, None)"
  shows "\<exists>pts. resampled_points cfg fl = Inr pts \<and>
           ys = snd (push_each (batch_size cfg) [] pts) @
                (if fst (push_each (batch_size cfg) [] pts) \<noteq> []
                 then [fst (push_each (batch_size cfg) [] pts)] else [])"
proof -
  have inv: "prev1 init_bstate = None \<longrightarrow> prev2 init_bstate = None"
    by (simp add: init_bstate_def)
  note r = batch_loop_resample [OF inv, of cfg "parse_gcode_points fl"]
  have i: "prev2 init_bstate = None" "prev1 init_bstate = None" "batch init_bstate = []"
    by (simp_all add: init_bstate_def)
  show ?thesis
  proof (cases "resampled_points cfg fl")
    case (Inl e)
    with r have "snd (batch_loop cfg init_bstate (parse_gcode_points fl)) = Inl e"
      by (simp add: resampled_points_def i)
    then have "snd (batch_points_for_spline cfg fl) = Some e"
      by (simp add: batch_points_unfold)
    with assms show ?thesis by simp
  next
    case (Inr pts)
    with r obtain st' where
      f: "fst (batch_loop cfg init_bstate (parse_gcode_points fl)) =
          snd (push_each (batch_size cfg) [] pts)" and
      s: "snd (batch_loop cfg init_bstate (parse_gcode_points fl)) = Inr st'" and
      b: "batch st' = fst (push_each (batch_size cfg) [] pts)"
      by (auto simp: resampled_points_def i)
    have "batch_points_for_spline cfg fl =
          (snd (push_each (batch_size cfg) [] pts) @
             (if fst (push_each (batch_size cfg) [] pts) \<noteq> []
              then [fst (push_each (batch_size cfg) [] pts)] else []), None)"
      using f s b by (simp add: batch_points_unfold)
    with assms Inr show ?thesis by simp
  qed
qed

lemma final_buffer_nonempty:
  assumes "3 \<le> bs"
  shows "pts \<noteq> [] \<or> b \<noteq> [] \<Longrightarrow> fst (push_each bs b pts) \<noteq> []"
proof (induction pts arbitrary: b)
  case Nil
  then show ?case by simp
next
  case (Cons q qs)
  have "fst (push bs b q) \<noteq> []"
    using assms by (simp add: push_def Let_def)
  from Cons.IH [of "fst (push bs b q)"] this show ?case
    unfolding push_each_Cons fst_conv by simp
qed

text \<open>
  Claim C5. The generator buffers the resampled points; whenever the buffer reaches or exceeds
  \<open>batch_size\<close> it yields all buffered points but the last two and keeps those two as the
  start of the next batch; when the input is exhausted it yields the remaining buffer exactly
  when that buffer is not empty. A run the resampling aborts ends with that exception.
\<close>
theorem batcher_follows_buffer_contract:
  "(case resampled_points cfg fl of
      Inr pts \<Rightarrow> batch_points_for_spline cfg fl = (batcher_spec (batch_size cfg) [] pts, None)
    | Inl e \<Rightarrow> snd (batch_points_for_spline cfg fl) = Some e)"
proof -
  have inv: "prev1 init_bstate = None \<longrightarrow> prev2 init_bstate = None"
    by (simp add: init_bstate_def)
  note r = batch_loop_resample [OF inv, of cfg "parse_gcode_points fl"]
  have i: "prev2 init_bstate = None" "prev1 init_bstate = None" "batch init_bstate = []"
    by (simp_all add: init_bstate_def)
  show ?thesis
  proof (cases "resampled_points cfg fl")
    case (Inl e)
    with r have "snd (batch_loop cfg init_bstate (parse_gcode_points fl)) = Inl e"
      by (simp add: resampled_points_def i)
    then have "snd (batch_points_for_spline cfg fl) = Some e"
      by (simp add: batch_points_unfold)
    with Inl show ?thesis by simp
  next
    case (Inr pts)
    with r obtain st' where
      f: "fst (batch_loop cfg init_bstate (parse_gcode_points fl)) =
          snd (push_each (batch_size cfg) [] pts)" and
      s: "snd (batch_loop cfg init_bstate (parse_gcode_points fl)) = Inr st'" and
      b: "batch st' = fst (push_each (batch_size cfg) [] pts)"
      by (auto simp: resampled_points_def i)
    have "batch_points_for_spline cfg fl =
          (snd (push_each (batch_size cfg) [] pts) @
             (if fst (push_each (batch_size cfg) [] pts) \<noteq> []
              then [fst (push_each (batch_size cfg) [] pts)] else []), None)"
      using f s b by (simp add: batch_points_unfold)
    then have "batch_points_for_spline cfg fl = (batcher_spec (batch_size cfg) [] pts, None)"
      by (simp only: push_each_spec)
    with Inr show ?thesis by simp
  qed
qed

theorem batcher_follows_buffer_contract_witness:
  "resampled_points (default_config\<lparr>batch_size := 3\<rparr>) [''G1 X0 Y0'', ''G1 X1 Y0''] =
     Inr [(0, 0), (1 / 2, 0), (1, 0)] \<and>
   batch_points_for_spline (default_config\<lparr>batch_size := 3\<rparr>) [''G1 X0 Y0'', ''G1 X1 Y0''] =
     ([[(0, 0)], [(1 / 2, 0), (1, 0)]], None)"
proof -
  have a: "resampled_points (default_config\<lparr>batch_size := 3\<rparr>) [''G1 X0 Y0'', ''G1 X1 Y0''] =
     Inr [(0, 0), (1 / 2, 0), (1, 0)]"
    unfolding resampled_points_def two_line_points
    by (rule two_line_resample) (simp add: default_config_def)
  have b: "batcher_spec (batch_size (default_config\<lparr>batch_size := 3\<rparr>)) []
             [(0, 0), (1 / 2, 0), (1, 0)] = [[(0, 0)], [(1 / 2, 0), (1, 0)]]"
    by (simp add: Let_def)
  from batcher_follows_buffer_contract
         [of "default_config\<lparr>batch_size := 3\<rparr>" "[''G1 X0 Y0'', ''G1 X1 Y0'']"]
  show ?thesis unfolding a b by simp
qed

text \<open>
  Claim C6, as stated, fails: with batch size 3 the two lines \<open>G1 X0 Y0\<close>, \<open>G1 X1 Y0\<close>
  give three resampled points in the batches \<open>[(0,0)]\<close> and \<open>[(0.5,0), (1,0)]\<close>; no point
  is repeated, and dropping two points at the boundary leaves one point, not three.
\<close>
theorem overlap_dropping_counterexample:
  "batch_points_for_spline (default_config\<lparr>batch_size := 3\<rparr>) [''G1 X0 Y0'', ''G1 X1 Y0''] =
     ([[(0, 0)], [(1 / 2, 0), (1, 0)]], None) \<and>
   resampled_points (default_config\<lparr>batch_size := 3\<rparr>) [''G1 X0 Y0'', ''G1 X1 Y0''] =
     Inr [(0, 0), (1 / 2, 0), (1, 0)] \<and>
   length (drop_overlap [[(0, 0)], [(1 / 2, 0), (1, 0)]]) = 1 \<and>
   length (drop_overlap [[(0, 0)], [(1 / 2, 0), (1, 0)]]) \<noteq> length [(0, 0), (1 / 2, 0), (1, 0) :: point]"
proof -
  have a: "resampled_points (default_config\<lparr>batch_size := 3\<rparr>) [''G1 X0 Y0'', ''G1 X1 Y0''] =
     Inr [(0, 0), (1 / 2, 0), (1, 0)]"
    unfolding resampled_points_def two_line_points
    by (rule two_line_resample) (simp add: default_config_def)
  have b: "batch_points_for_spline (default_config\<lparr>batch_size := 3\<rparr>) [''G1 X0 Y0'', ''G1 X1 Y0''] =
     ([[(0, 0)], [(1 / 2, 0), (1, 0)]], None)"
    unfolding batch_points_for_spline_def two_line_points
    by (simp add: default_config_def init_bstate_def batch_step_def push_def append_segment_def
        segment_points_def hypot_def lin_interpolate_def side_points_def linspace_def Let_def
        upt_conv_Cons)
  have c: "length (drop_overlap [[(0, 0)], [(1 / 2, 0), (1, 0)]]) = 1"
    by (simp add: drop_overlap_def)
  from a b c show ?thesis by simp
qed

text \<open>
  Claim C6, amended. When the generator ends without an exception, the concatenation of all
  yielded batches, with nothing dropped, is the sequence of resampled points, so the lengths
  of the batches add up to the number of resampled points.
\<close>
theorem batches_concat_to_resampled_points:
  assumes "batch_points_for_spline cfg fl = (ys, None)"
  shows "resampled_points cfg fl = Inr (concat ys) \<and>
         sum_list (map length ys) = length (concat ys)"
proof -
  from no_error_run [OF assms] obtain pts where
    r: "resampled_points cfg fl = Inr pts" and
    y: "ys = snd (push_each (batch_size cfg) [] pts) @
                (if fst (push_each (batch_size cfg) [] pts) \<noteq> []
                 then [fst (push_each (batch_size cfg) [] pts)] else [])"
    by blast
  have "concat ys = concat (snd (push_each (batch_size cfg) [] pts)) @
                    fst (push_each (batch_size cfg) [] pts)"
    unfolding y by simp
  also have "\<dots> = pts" by (simp only: push_each_concat append_Nil)
  finally have c: "concat ys = pts" .
  have "sum_list (map length ys) = length (concat ys)"
    by (simp add: length_concat)
  with r c show ?thesis by simp
qed

theorem batches_concat_to_resampled_points_witness:
  "batch_points_for_spline (default_config\<lparr>batch_size := 3\<rparr>) [''G1 X0 Y0'', ''G1 X1 Y0''] =
     ([[(0, 0)], [(1 / 2, 0), (1, 0)]], None) \<and>
   resampled_points (default_config\<lparr>batch_size := 3\<rparr>) [''G1 X0 Y0'', ''G1 X1 Y0''] =
     Inr (concat [[(0, 0)], [(1 / 2, 0), (1, 0)]])"
proof -
  have b: "batch_points_for_spline (default_config\<lparr>batch_size := 3\<rparr>) [''G1 X0 Y0'', ''G1 X1 Y0''] =
     ([[(0, 0)], [(1 / 2, 0), (1, 0)]], None)"
    unfolding batch_points_for_spline_def two_line_points
    by (simp add: default_config_def init_bstate_def batch_step_def push_def append_segment_def
        segment_points_def hypot_def lin_interpolate_def side_points_def linspace_def Let_def
        upt_conv_Cons)
  from batches_concat_to_resampled_points [OF b] b show ?thesis by blast
qed

text \<open>
  Claim C10, as stated, fails on a run that an exception aborts: with
  \<open>straight_sample_dist = 0\<close> and batch size 3 the two lines \<open>G1 X0 Y0\<close>, \<open>G1 X1 Y0\<close>
  have the point \<open>(0, 0)\<close> pushed into the buffer by the first pass of the loop, the second
  pass raises \<open>ZeroDivisionError\<close>, and the generator ends having yielded no batch: the
  point appears in no yielded batch.
\<close>
theorem aborted_run_loses_buffered_point:
  "parse_gcode_points [''G1 X0 Y0'', ''G1 X1 Y0''] = [(0, 0), (1, 0)] \<and>
   batch_step (default_config\<lparr>batch_size := 3, straight_sample_dist := 0\<rparr>) init_bstate (0, 0) =
     Inr (init_bstate\<lparr>prev1 := Some (0, 0), batch := [(0, 0)]\<rparr>, []) \<and>
   batch_step (default_config\<lparr>batch_size := 3, straight_sample_dist := 0\<rparr>)
     (init_bstate\<lparr>prev1 := Some (0, 0), batch := [(0, 0)]\<rparr>) (1, 0) = Inl ZeroDivisionError \<and>
   batch_points_for_spline (default_config\<lparr>batch_size := 3, straight_sample_dist := 0\<rparr>)
     [''G1 X0 Y0'', ''G1 X1 Y0''] = ([], Some ZeroDivisionError)"
proof -
  have a: "batch_step (default_config\<lparr>batch_size := 3, straight_sample_dist := 0\<rparr>) init_bstate (0, 0) =
     Inr (init_bstate\<lparr>prev1 := Some (0, 0), batch := [(0, 0)]\<rparr>, [])"
    by (simp add: default_config_def init_bstate_def batch_step_def push_def Let_def)
  have b: "batch_step (default_config\<lparr>batch_size := 3, straight_sample_dist := 0\<rparr>)
     (init_bstate\<lparr>prev1 := Some (0, 0), batch := [(0, 0)]\<rparr>) (1, 0) = Inl ZeroDivisionError"
    by (simp add: default_config_def init_bstate_def batch_step_def append_segment_def
        segment_points_def hypot_def Let_def)
  have c: "batch_points_for_spline (default_config\<lparr>batch_size := 3, straight_sample_dist := 0\<rparr>)
     [''G1 X0 Y0'', ''G1 X1 Y0''] = ([], Some ZeroDivisionError)"
    unfolding batch_points_for_spline_def two_line_points
    by (simp add: a b)
  from two_line_points a b c show ?thesis by blast
qed

text \<open>
  Claim C10, amended. For \<open>batch_size\<close> at least 3 every batch yielded before the input
  is exhausted has exactly \<open>batch_size - 2\<close> points, on every input. Whenever the
  resampling raises no exception the generator ends without one, and its batches, the
  mid-stream ones followed by at most one final batch, concatenate to the sequence of
  resampled points: every resampled point is in exactly one yielded batch, the two retained
  points only in a later one (for \<open>batch_size\<close> at least 3 the final batch is there exactly
  when there is a resampled point, and is non-empty and shorter than \<open>batch_size\<close>).
  When the resampling raises, the generator ends with that exception after its mid-stream
  batches. For every \<open>batch_size\<close> of at most 2 the two-line input has an empty list as its
  first mid-stream batch.
\<close>
theorem complete_runs_partition_resampled_points:
  "(case resampled_points cfg fl of
      Inr pts \<Rightarrow>
        (\<exists>fin. batch_points_for_spline cfg fl =
                 (fst (batch_loop cfg init_bstate (parse_gcode_points fl)) @ fin, None) \<and>
               concat (fst (batch_points_for_spline cfg fl)) = pts \<and>
               length fin \<le> 1 \<and>
               (3 \<le> batch_size cfg \<longrightarrow>
                  (\<forall>y \<in> set fin. 0 < length y \<and> int (length y) < batch_size cfg) \<and>
                  (fin = [] \<longleftrightarrow> pts = [])))
    | Inl e \<Rightarrow>
        batch_points_for_spline cfg fl =
          (fst (batch_loop cfg init_bstate (parse_gcode_points fl)), Some e)) \<and>
   (3 \<le> batch_size cfg \<longrightarrow>
      (\<forall>y \<in> set (fst (batch_loop cfg init_bstate (parse_gcode_points fl))).
         int (length y) = batch_size cfg - 2)) \<and>
   (\<forall>bs \<le> 2. \<exists>rest.
      batch_points_for_spline (default_config\<lparr>batch_size := bs\<rparr>) [''G1 X0 Y0'', ''G1 X1 Y0''] =
        ([] # rest @ [[(1 / 2, 0), (1, 0)]], None) \<and>
      fst (batch_loop (default_config\<lparr>batch_size := bs\<rparr>) init_bstate
             (parse_gcode_points [''G1 X0 Y0'', ''G1 X1 Y0''])) = [] # rest)"
proof -
  have inv: "prev1 init_bstate = None \<longrightarrow> prev2 init_bstate = None"
    by (simp add: init_bstate_def)
  have i: "prev2 init_bstate = None" "prev1 init_bstate = None" "batch init_bstate = []"
    by (simp_all add: init_bstate_def)
  note r = batch_loop_resample [OF inv, of cfg "parse_gcode_points fl"]
  have one: "(case resampled_points cfg fl of
      Inr pts \<Rightarrow>
        (\<exists>fin. batch_points_for_spline cfg fl =
                 (fst (batch_loop cfg init_bstate (parse_gcode_points fl)) @ fin, None) \<and>
               concat (fst (batch_points_for_spline cfg fl)) = pts \<and>
               length fin \<le> 1 \<and>
               (3 \<le> batch_size cfg \<longrightarrow>
                  (\<forall>y \<in> set fin. 0 < length y \<and> int (length y) < batch_size cfg) \<and>
                  (fin = [] \<longleftrightarrow> pts = [])))
    | Inl e \<Rightarrow>
        batch_points_for_spline cfg fl =
          (fst (batch_loop cfg init_bstate (parse_gcode_points fl)), Some e))"
  proof (cases "resampled_points cfg fl")
    case (Inl e)
    with r have "snd (batch_loop cfg init_bstate (parse_gcode_points fl)) = Inl e"
      by (simp add: resampled_points_def i)
    then have "batch_points_for_spline cfg fl =
          (fst (batch_loop cfg init_bstate (parse_gcode_points fl)), Some e)"
      by (simp add: batch_points_unfold)
    with Inl show ?thesis by simp
  next
    case (Inr pts)
    define B where "B = fst (push_each (batch_size cfg) [] pts)"
    define fin where "fin = (if B \<noteq> [] then [B] else [])"
    from Inr r obtain st' where
      f: "fst (batch_loop cfg init_bstate (parse_gcode_points fl)) =
          snd (push_each (batch_size cfg) [] pts)" and
      s: "snd (batch_loop cfg init_bstate (parse_gcode_points fl)) = Inr st'" and
      b: "batch st' = B"
      unfolding B_def by (auto simp: resampled_points_def i)
    have run: "batch_points_for_spline cfg fl =
          (fst (batch_loop cfg init_bstate (parse_gcode_points fl)) @ fin, None)"
      using s b unfolding fin_def by (simp add: batch_points_unfold)
    have "concat (fst (batch_points_for_spline cfg fl)) =
          concat (snd (push_each (batch_size cfg) [] pts)) @ B"
      unfolding run fst_conv f fin_def by simp
    also have "\<dots> = pts" unfolding B_def by (simp only: push_each_concat append_Nil)
    finally have cc: "concat (fst (batch_points_for_spline cfg fl)) = pts" .
    have l1: "length fin \<le> 1" unfolding fin_def by simp
    have big: "3 \<le> batch_size cfg \<longrightarrow>
                  (\<forall>y \<in> set fin. 0 < length y \<and> int (length y) < batch_size cfg) \<and>
                  (fin = [] \<longleftrightarrow> pts = [])"
    proof
      assume g: "3 \<le> batch_size cfg"
      then have "int (length ([] :: point list)) < batch_size cfg" by simp
      from push_each_sizes [OF g this, of pts]
      have lt: "int (length B) < batch_size cfg" unfolding B_def by simp
      have e1: "pts = [] \<Longrightarrow> B = []" unfolding B_def by simp
      have e2: "pts \<noteq> [] \<Longrightarrow> B \<noteq> []"
        unfolding B_def using final_buffer_nonempty [OF g, of pts "[]"] by simp
      from lt e1 e2
      show "(\<forall>y \<in> set fin. 0 < length y \<and> int (length y) < batch_size cfg) \<and>
                  (fin = [] \<longleftrightarrow> pts = [])"
        unfolding fin_def by auto
    qed
    from run cc l1 big Inr show ?thesis by auto
  qed
  have two: "3 \<le> batch_size cfg \<longrightarrow>
      (\<forall>y \<in> set (fst (batch_loop cfg init_bstate (parse_gcode_points fl))).
         int (length y) = batch_size cfg - 2)"
  proof
    assume g: "3 \<le> batch_size cfg"
    then have "int (length (batch init_bstate)) < batch_size cfg" by (simp add: i)
    from batch_loop_sizes [OF g inv this]
    show "\<forall>y \<in> set (fst (batch_loop cfg init_bstate (parse_gcode_points fl))).
         int (length y) = batch_size cfg - 2" .
  qed
  have three: "\<forall>bs \<le> 2. \<exists>rest.
      batch_points_for_spline (default_config\<lparr>batch_size := bs\<rparr>) [''G1 X0 Y0'', ''G1 X1 Y0''] =
        ([] # rest @ [[(1 / 2, 0), (1, 0)]], None) \<and>
      fst (batch_loop (default_config\<lparr>batch_size := bs\<rparr>) init_bstate
             (parse_gcode_points [''G1 X0 Y0'', ''G1 X1 Y0''])) = [] # rest"
  proof (intro allI impI)
    fix bs :: int assume s: "bs \<le> 2"
    define c where "c = default_config\<lparr>batch_size := bs\<rparr>"
    have bsz: "batch_size c = bs" unfolding c_def by simp
    have rs: "resample_loop c None None [(0, 0), (1, 0)] =
              Inr [(0, 0), (1 / 2, 0), (1, 0)]"
      unfolding c_def by (rule two_line_resample) (simp add: default_config_def)
    from batch_loop_resample [OF inv, of c "[(0, 0), (1, 0)]"]
    obtain st' where
      f: "fst (batch_loop c init_bstate [(0, 0), (1, 0)]) =
          snd (push_each bs [] [(0, 0), (1 / 2, 0), (1, 0)])" and
      sn: "snd (batch_loop c init_bstate [(0, 0), (1, 0)]) = Inr st'" and
      b: "batch st' = fst (push_each bs [] [(0, 0), (1 / 2, 0), (1, 0)])"
      unfolding i rs bsz by auto
    have pe: "\<exists>rest. push_each bs [] [(0, 0), (1 / 2, 0), (1, 0)] =
                ([(1 / 2, 0), (1, 0)], [] # rest)"
    proof (cases "bs \<le> 1")
      case True
      then show ?thesis by (simp add: push_def Let_def)
    next
      case False
      with s have "bs = 2" by simp
      then show ?thesis by (simp add: push_def Let_def)
    qed
    then obtain rest where pr: "push_each bs [] [(0, 0), (1 / 2, 0), (1, 0)] =
                ([(1 / 2, 0), (1, 0)], [] # rest)" by blast
    have f': "fst (batch_loop c init_bstate [(0, 0), (1, 0)]) = [] # rest"
      using f by (simp only: pr snd_conv)
    have b': "batch st' = [(1 / 2, 0), (1, 0)]"
      using b by (simp only: pr fst_conv)
    have "batch_points_for_spline c [''G1 X0 Y0'', ''G1 X1 Y0''] =
        ([] # rest @ [[(1 / 2, 0), (1, 0)]], None) \<and>
      fst (batch_loop c init_bstate
             (parse_gcode_points [''G1 X0 Y0'', ''G1 X1 Y0''])) = [] # rest"
      unfolding batch_points_unfold two_line_points f' sn by (simp add: b')
    then show "\<exists>rest.
      batch_points_for_spline (default_config\<lparr>batch_size := bs\<rparr>) [''G1 X0 Y0'', ''G1 X1 Y0''] =
        ([] # rest @ [[(1 / 2, 0), (1, 0)]], None) \<and>
      fst (batch_loop (default_config\<lparr>batch_size := bs\<rparr>) init_bstate
             (parse_gcode_points [''G1 X0 Y0'', ''G1 X1 Y0''])) = [] # rest"
      unfolding c_def by blast
  qed
  from one two three show ?thesis by blast
qed

theorem complete_runs_partition_resampled_points_witness:
  "resampled_points (default_config\<lparr>batch_size := 3\<rparr>) [''G1 X0 Y0'', ''G1 X1 Y0''] =
     Inr [(0, 0), (1 / 2, 0), (1, 0)] \<and>
   (3::int) \<le> batch_size (default_config\<lparr>batch_size := 3\<rparr>) \<and>
   fst (batch_loop (default_config\<lparr>batch_size := 3\<rparr>) init_bstate
          (parse_gcode_points [''G1 X0 Y0'', ''G1 X1 Y0''])) = [[(0, 0)]] \<and>
   int (length [(0, 0) :: point]) = batch_size (default_config\<lparr>batch_size := 3\<rparr>) - 2 \<and>
   batch_points_for_spline (default_config\<lparr>batch_size := 3\<rparr>) [''G1 X0 Y0'', ''G1 X1 Y0''] =
     ([[(0, 0)], [(1 / 2, 0), (1, 0)]], None) \<and>
   concat (fst (batch_points_for_spline (default_config\<lparr>batch_size := 3\<rparr>)
                  [''G1 X0 Y0'', ''G1 X1 Y0''])) = [(0, 0), (1 / 2, 0), (1, 0)] \<and>
   (\<exists>rest. batch_points_for_spline (default_config\<lparr>batch_size := 2\<rparr>)
             [''G1 X0 Y0'', ''G1 X1 Y0''] = ([] # rest @ [[(1 / 2, 0), (1, 0)]], None))"
proof -
  have a: "resampled_points (default_config\<lparr>batch_size := 3\<rparr>) [''G1 X0 Y0'', ''G1 X1 Y0''] =
     Inr [(0, 0), (1 / 2, 0), (1, 0)]"
    unfolding resampled_points_def two_line_points
    by (rule two_line_resample) (simp add: default_config_def)
  have g: "(3::int) \<le> batch_size (default_config\<lparr>batch_size := 3\<rparr>)" by simp
  have b: "fst (batch_loop (default_config\<lparr>batch_size := 3\<rparr>) init_bstate
          (parse_gcode_points [''G1 X0 Y0'', ''G1 X1 Y0''])) = [[(0, 0)]]"
    unfolding two_line_points
    by (simp add: default_config_def init_bstate_def batch_step_def push_def append_segment_def
        segment_points_def hypot_def lin_interpolate_def side_points_def linspace_def Let_def
        upt_conv_Cons)
  note t = complete_runs_partition_resampled_points
             [of "default_config\<lparr>batch_size := 3\<rparr>" "[''G1 X0 Y0'', ''G1 X1 Y0'']"]
  from t g have "\<forall>y \<in> set (fst (batch_loop (default_config\<lparr>batch_size := 3\<rparr>) init_bstate
          (parse_gcode_points [''G1 X0 Y0'', ''G1 X1 Y0'']))).
         int (length y) = batch_size (default_config\<lparr>batch_size := 3\<rparr>) - 2" by blast
  then have c: "int (length [(0, 0) :: point]) =
                batch_size (default_config\<lparr>batch_size := 3\<rparr>) - 2"
    unfolding b by simp
  from t have "\<exists>fin. batch_points_for_spline (default_config\<lparr>batch_size := 3\<rparr>)
                        [''G1 X0 Y0'', ''G1 X1 Y0''] = ([[(0, 0)]] @ fin, None) \<and>
      concat (fst (batch_points_for_spline (default_config\<lparr>batch_size := 3\<rparr>)
                  [''G1 X0 Y0'', ''G1 X1 Y0''])) = [(0, 0), (1 / 2, 0), (1, 0)]"
    unfolding a b by auto
  then obtain fin where
    d1: "batch_points_for_spline (default_config\<lparr>batch_size := 3\<rparr>)
                        [''G1 X0 Y0'', ''G1 X1 Y0''] = ([[(0, 0)]] @ fin, None)" and
    d2: "concat (fst (batch_points_for_spline (default_config\<lparr>batch_size := 3\<rparr>)
                  [''G1 X0 Y0'', ''G1 X1 Y0''])) = [(0, 0), (1 / 2, 0), (1, 0)]" by blast
  from t have e: "\<exists>rest. batch_points_for_spline (default_config\<lparr>batch_size := 2\<rparr>)
             [''G1 X0 Y0'', ''G1 X1 Y0''] = ([] # rest @ [[(1 / 2, 0), (1, 0)]], None)"
    by auto
  have d: "batch_points_for_spline (default_config\<lparr>batch_size := 3\<rparr>) [''G1 X0 Y0'', ''G1 X1 Y0''] =
     ([[(0, 0)], [(1 / 2, 0), (1, 0)]], None)"
    unfolding batch_points_for_spline_def two_line_points
    by (simp add: default_config_def init_bstate_def batch_step_def push_def append_segment_def
        segment_points_def hypot_def lin_interpolate_def side_points_def linspace_def Let_def
        upt_conv_Cons)
  from a g b c d d2 e show ?thesis by blast
qed

section \<open>Properties of the turn angle\<close>

lemma norm2_zero: "norm2 a = 0 \<longleftrightarrow> a = (0, 0)"
proof -
  have "norm2 a = 0 \<longleftrightarrow> fst a * fst a + snd a * snd a = 0"
    unfolding norm2_def by (rule real_sqrt_eq_zero_cancel_iff)
  also have "\<dots> \<longleftrightarrow> fst a = 0 \<and> snd a = 0"
    by (rule sum_squares_eq_zero_iff)
  also have "\<dots> \<longleftrightarrow> a = (0, 0)"
    by (cases a) simp
  finally show ?thesis .
qed

lemma acos_clamped: "acos (max (- 1) (min 1 c)) = Inr (arccos (max (- 1) (min 1 c)))"
  unfolding acos_def by simp

lemma angle_between_unfold:
  "angle_between a b =
     (if norm2 a = 0 \<or> norm2 b = 0 then Inr 0
      else Inr (arccos (max (- 1) (min 1 (dot2 a b / (norm2 a * norm2 b))))))"
  unfolding angle_between_def Let_def acos_clamped by (rule refl)


text \<open>
  Claim C8. The turn-angle computation returns an angle, between 0 and \<open>pi\<close>, for every
  pair of vectors, and raises nothing. If either vector has zero length, which is the case
  exactly for the vector \<open>(0, 0)\<close>, the angle is 0. Otherwise the quotient of the dot
  product by the product of the lengths is clamped into the interval from -1 to 1 before it
  is handed to \<open>acos\<close>, and \<open>acos\<close> succeeds on every clamped value, whatever the
  quotient was, whereas outside of that interval it raises the domain error.
\<close>
theorem angle_between_total:
  "(\<exists>r. angle_between a b = Inr r \<and> 0 \<le> r \<and> r \<le> pi) \<and>
   (norm2 a = 0 \<or> norm2 b = 0 \<longrightarrow> angle_between a b = Inr 0) \<and>
   (norm2 a = 0 \<longleftrightarrow> a = (0, 0)) \<and> (norm2 b = 0 \<longleftrightarrow> b = (0, 0)) \<and>
   (norm2 a \<noteq> 0 \<and> norm2 b \<noteq> 0 \<longrightarrow>
      angle_between a b = acos (max (- 1) (min 1 (dot2 a b / (norm2 a * norm2 b))))) \<and>
   (\<forall>c. - 1 \<le> max (- 1) (min 1 c) \<and> max (- 1) (min 1 c) \<le> 1 \<and>
        acos (max (- 1) (min 1 c)) = Inr (arccos (max (- 1) (min 1 c)))) \<and>
   (\<forall>c. acos c = Inl ValueError \<longleftrightarrow> c < - 1 \<or> 1 < c)"
proof -
  have 0: "\<exists>r. angle_between a b = Inr r \<and> 0 \<le> r \<and> r \<le> pi"
  proof (cases "norm2 a = 0 \<or> norm2 b = 0")
    case True
    then have "angle_between a b = Inr 0" unfolding angle_between_unfold by simp
    then show ?thesis by simp
  next
    case False
    define c where "c = max (- 1) (min 1 (dot2 a b / (norm2 a * norm2 b)))"
    have r: "- 1 \<le> c" "c \<le> 1" unfolding c_def by simp_all
    from False have "angle_between a b = Inr (arccos c)"
      unfolding angle_between_unfold c_def by simp
    with arccos_lbound [OF r] arccos_ubound [OF r] show ?thesis by simp
  qed
  have 1: "norm2 a = 0 \<or> norm2 b = 0 \<longrightarrow> angle_between a b = Inr 0"
    unfolding angle_between_unfold by simp
  have 2: "norm2 a \<noteq> 0 \<and> norm2 b \<noteq> 0 \<longrightarrow>
      angle_between a b = acos (max (- 1) (min 1 (dot2 a b / (norm2 a * norm2 b))))"
    unfolding angle_between_def Let_def by simp
  have 3: "\<forall>c::real. - 1 \<le> max (- 1) (min 1 c) \<and> max (- 1) (min 1 c) \<le> 1 \<and>
        acos (max (- 1) (min 1 c)) = Inr (arccos (max (- 1) (min 1 c)))"
    using acos_clamped by simp
  have 4: "\<forall>c. acos c = Inl ValueError \<longleftrightarrow> c < - 1 \<or> 1 < c"
    unfolding acos_def by auto
  from 0 1 2 3 4 norm2_zero [of a] norm2_zero [of b] show ?thesis by blast
qed

theorem angle_between_total_witness:
  "norm2 (0, 0) = 0 \<and> angle_between (0, 0) (1, 0) = Inr 0 \<and>
   norm2 (1, 0) = 1 \<and> norm2 (0, 1) = 1 \<and> angle_between (1, 0) (0, 1) = Inr (pi / 2) \<and>
   acos (max (- 1) (min 1 7)) = Inr 0 \<and> acos 7 = Inl ValueError"
proof -
  have n: "norm2 (0, 0) = 0" "norm2 (1, 0) = 1" "norm2 (0, 1) = 1" by (simp_all add: norm2_def)
  from angle_between_total [of "(0, 0)" "(1, 0)"] n
  have a: "angle_between (0, 0) (1, 0) = Inr 0" by blast
  have nz: "norm2 (1, 0) \<noteq> 0 \<and> norm2 (0, 1) \<noteq> 0" using n by simp
  from angle_between_total [of "(1, 0)" "(0, 1)"] nz
  have "angle_between (1, 0) (0, 1) =
          acos (max (- 1) (min 1 (dot2 (1, 0) (0, 1) / (norm2 (1, 0) * norm2 (0, 1)))))"
    by blast
  then have b: "angle_between (1, 0) (0, 1) = Inr (pi / 2)"
    unfolding n by (simp add: dot2_def acos_def)
  have c: "acos (max (- 1) (min 1 7)) = Inr 0" "acos 7 = Inl ValueError"
    by (simp_all add: acos_def)
  from n a b c show ?thesis by blast
qed

section \<open>Properties of the resampling window\<close>




















section \<open>Properties of the point collector\<close>














end
